theory Spec2Isabelle
  imports Main "HOL-Library.Multiset" "HOL-Library.Sublist"
begin

section \<open>The logger (logger.go)\<close>

text \<open>
  \<^verbatim>\<open>type LogLevel int\<close> with the five constants of the \<^verbatim>\<open>iota\<close> block. A level is any
  Go \<^verbatim>\<open>int\<close>, so it is modelled as an integer and the constants as numbers.
\<close>

type_synonym LogLevel = int

definition LogLevelDebug :: LogLevel where "LogLevelDebug = 0"
definition LogLevelInfo :: LogLevel where "LogLevelInfo = 1"
definition LogLevelWarn :: LogLevel where "LogLevelWarn = 2"
definition LogLevelError :: LogLevel where "LogLevelError = 3"
definition LogLevelSilent :: LogLevel where "LogLevelSilent = 4"

text \<open>
  The two \<^verbatim>\<open>*log.Logger\<close> fields are created with an empty prefix and no flags. Each is
  modelled by the sequence of writes its writer has received, oldest first. The mutex is not
  modelled: every method holds it for its whole body, so each call is one atomic step.
\<close>

record Logger =
  level :: LogLevel
  logger :: "string list"
  errorLog :: "string list"
  errorCount :: int
  warnCount :: int

text \<open>
  \<^verbatim>\<open>(*log.Logger).Printf\<close> of the standard library, with empty prefix and flags 0: the
  formatted text is written in one write, with a newline appended unless it already ends
  in one. \<^verbatim>\<open>fmt.Sprintf\<close> itself is a parameter \<open>sprintf\<close> of everything that formats.
\<close>

definition log_Printf :: "(string \<Rightarrow> 'a list \<Rightarrow> string) \<Rightarrow> string list \<Rightarrow> string \<Rightarrow> 'a list \<Rightarrow> string list" where
  "log_Printf sprintf w format args =
     (let s = sprintf format args
      in w @ [if s = [] \<or> last s \<noteq> CHR 0x0A then s @ [CHR 0x0A] else s])"

definition NewLogger :: "LogLevel \<Rightarrow> Logger" where
  "NewLogger lvl = \<lparr>level = lvl, logger = [], errorLog = [], errorCount = 0, warnCount = 0\<rparr>"

definition SetLevel :: "Logger \<Rightarrow> LogLevel \<Rightarrow> Logger" where
  "SetLevel l lvl = l\<lparr>level := lvl\<rparr>"

definition Debug :: "(string \<Rightarrow> 'a list \<Rightarrow> string) \<Rightarrow> Logger \<Rightarrow> string \<Rightarrow> 'a list \<Rightarrow> Logger" where
  "Debug sprintf l format args =
     (if level l \<le> LogLevelDebug
      then l\<lparr>logger := log_Printf sprintf (logger l) (''[DEBUG] '' @ format) args\<rparr>
      else l)"

definition Info :: "(string \<Rightarrow> 'a list \<Rightarrow> string) \<Rightarrow> Logger \<Rightarrow> string \<Rightarrow> 'a list \<Rightarrow> Logger" where
  "Info sprintf l format args =
     (if level l \<le> LogLevelInfo
      then l\<lparr>logger := log_Printf sprintf (logger l) (''[INFO] '' @ format) args\<rparr>
      else l)"

definition Warn :: "(string \<Rightarrow> 'a list \<Rightarrow> string) \<Rightarrow> Logger \<Rightarrow> string \<Rightarrow> 'a list \<Rightarrow> Logger" where
  "Warn sprintf l format args =
     (if level l \<le> LogLevelWarn
      then l\<lparr>warnCount := warnCount l + 1,
             logger := log_Printf sprintf (logger l) (''[WARN] '' @ format) args\<rparr>
      else l)"

definition Error :: "(string \<Rightarrow> 'a list \<Rightarrow> string) \<Rightarrow> Logger \<Rightarrow> string \<Rightarrow> 'a list \<Rightarrow> Logger" where
  "Error sprintf l format args =
     (if level l \<le> LogLevelError
      then l\<lparr>errorCount := errorCount l + 1,
             errorLog := log_Printf sprintf (errorLog l) (''[ERROR] '' @ format) args\<rparr>
      else l)"

definition GetErrorCount :: "Logger \<Rightarrow> int" where
  "GetErrorCount l = errorCount l"

definition GetWarnCount :: "Logger \<Rightarrow> int" where
  "GetWarnCount l = warnCount l"





text \<open>
  Arguments handed to the formatting verbs: a path (\<^verbatim>\<open>%s\<close>) or an error value (\<^verbatim>\<open>%v\<close>).
  \<^verbatim>\<open>IsPermissionError\<close> is \<^verbatim>\<open>os.IsPermission\<close>; that library predicate is the
  parameter \<open>os_IsPermission\<close>.
\<close>

datatype 'e arg = ArgString string | ArgError 'e




text \<open>
  A trace of calls on one logger, used to state what the two counters count. \<open>severity\<close>
  is the level constant each method compares against.
\<close>

datatype 'a call =
    CallDebug string "'a list"
  | CallInfo string "'a list"
  | CallWarn string "'a list"
  | CallError string "'a list"

fun severity :: "'a call \<Rightarrow> LogLevel" where
  "severity (CallDebug f a) = LogLevelDebug"
| "severity (CallInfo f a) = LogLevelInfo"
| "severity (CallWarn f a) = LogLevelWarn"
| "severity (CallError f a) = LogLevelError"

fun is_warn :: "'a call \<Rightarrow> bool" where
  "is_warn (CallWarn f a) = True"
| "is_warn c = False"

fun is_error :: "'a call \<Rightarrow> bool" where
  "is_error (CallError f a) = True"
| "is_error c = False"

fun exec :: "(string \<Rightarrow> 'a list \<Rightarrow> string) \<Rightarrow> Logger \<Rightarrow> 'a call \<Rightarrow> Logger" where
  "exec sprintf l (CallDebug f a) = Debug sprintf l f a"
| "exec sprintf l (CallInfo f a) = Info sprintf l f a"
| "exec sprintf l (CallWarn f a) = Warn sprintf l f a"
| "exec sprintf l (CallError f a) = Error sprintf l f a"

text \<open>A call emits when one of the two writers receives a write.\<close>

definition emits :: "(string \<Rightarrow> 'a list \<Rightarrow> string) \<Rightarrow> Logger \<Rightarrow> 'a call \<Rightarrow> bool" where
  "emits sprintf l c =
     (length (logger (exec sprintf l c)) + length (errorLog (exec sprintf l c))
        \<noteq> length (logger l) + length (errorLog l))"

text \<open>
  A step of a session is a logging call or a \<^verbatim>\<open>SetLevel\<close>. \<open>run\<close> performs the steps in
  order; \<open>emitted\<close> counts the calls of a given kind that emitted along the way.
\<close>

datatype 'a step = Log "'a call" | Level LogLevel

fun run :: "(string \<Rightarrow> 'a list \<Rightarrow> string) \<Rightarrow> Logger \<Rightarrow> 'a step list \<Rightarrow> Logger" where
  "run sprintf l [] = l"
| "run sprintf l (Log c # ss) = run sprintf (exec sprintf l c) ss"
| "run sprintf l (Level lvl # ss) = run sprintf (SetLevel l lvl) ss"

fun emitted :: "('a call \<Rightarrow> bool) \<Rightarrow> (string \<Rightarrow> 'a list \<Rightarrow> string) \<Rightarrow> Logger \<Rightarrow> 'a step list \<Rightarrow> nat" where
  "emitted kind sprintf l [] = 0"
| "emitted kind sprintf l (Log c # ss) =
     (if kind c \<and> emits sprintf l c then 1 else 0) + emitted kind sprintf (exec sprintf l c) ss"
| "emitted kind sprintf l (Level lvl # ss) = emitted kind sprintf (SetLevel l lvl) ss"

subsection \<open>A concrete instance of the library parameters\<close>

text \<open>
  Two operating-system errors, the library predicate on them, and a formatter that
  replaces each verb by its argument. They instantiate the parameters at concrete inputs.
\<close>

datatype os_error = EACCES | ENOENT


fun show_arg :: "os_error arg \<Rightarrow> string" where
  "show_arg (ArgString s) = s"
| "show_arg (ArgError EACCES) = ''permission denied''"
| "show_arg (ArgError ENOENT) = ''no such file or directory''"


section \<open>Report printing (output.go)\<close>

text \<open>
  Standard output is modelled by the text written to it: every printing function returns
  the characters it prints, and a sequence of prints is a concatenation. Strings are byte
  lists, so \<^verbatim>\<open>len\<close> is \<open>length\<close>; field widths are counted in the same unit, which
  agrees with \<^verbatim>\<open>fmt\<close> on ASCII text.
\<close>

definition colLanguage :: nat where "colLanguage = 20"
definition colFiles :: nat where "colFiles = 10"
definition colBlank :: nat where "colBlank = 12"
definition colComment :: nat where "colComment = 12"
definition colCode :: nat where "colCode = 12"
definition colTotal :: nat where "colTotal = 12"

text \<open>
  \<^verbatim>\<open>LanguageStats\<close> is declared in a file that is not part of the sources at hand; the
  record has the six fields that output.go reads.
\<close>

record LanguageStats =
  Language :: string
  FileCount :: int
  BlankLines :: int
  CommentLines :: int
  CodeLines :: int
  TotalLines :: int

subsection \<open>The formatting verbs used\<close>

text \<open>\<^verbatim>\<open>%d\<close>: the decimal digits of an integer, with a minus sign when negative.\<close>

definition digit_char :: "nat \<Rightarrow> char" where
  "digit_char d = ''0123456789'' ! d"

fun digits :: "nat \<Rightarrow> string" where
  "digits n = (if n < 10 then [digit_char n] else digits (n div 10) @ [digit_char (n mod 10)])"

declare digits.simps [simp del]

definition fmt_d :: "int \<Rightarrow> string" where
  "fmt_d n = (if n < 0 then CHR ''-'' # digits (nat (- n)) else digits (nat n))"



abbreviation nl :: string where "nl \<equiv> [CHR 0x0A]"

subsection \<open>Table pieces\<close>

definition printSeparator :: string where
  "printSeparator =
     (let totalWidth = colLanguage + colFiles + colBlank + colComment + colCode + colTotal + 5
      in replicate totalWidth CHR ''-'' @ nl)"





definition printFooter :: "int \<Rightarrow> int \<Rightarrow> int \<Rightarrow> string" where
  "printFooter processedFiles skippedFiles errorCount' =
     printSeparator @ nl @ ''Summary:'' @ nl
       @ ''  Files processed: '' @ fmt_d processedFiles @ nl
       @ ''  Files skipped:   '' @ fmt_d skippedFiles @ nl
       @ (if errorCount' > 0 then ''  Errors:          '' @ fmt_d errorCount' @ nl else [])
       @ nl"

subsection \<open>PrintErrors\<close>

text \<open>
  The \<^verbatim>\<open>range\<close> loop, with its index \<open>i\<close> and the length \<open>n\<close> of the whole slice; the
  \<^verbatim>\<open>break\<close> ends the recursion. \<open>fmt_v\<close> is what \<^verbatim>\<open>%v\<close> prints for an error value.
\<close>

fun PrintErrors_loop :: "('e \<Rightarrow> string) \<Rightarrow> nat \<Rightarrow> nat \<Rightarrow> 'e list \<Rightarrow> string" where
  "PrintErrors_loop fmt_v n i [] = []"
| "PrintErrors_loop fmt_v n i (err # rest) =
     (if i \<ge> 10 then ''  ... and '' @ fmt_d (int n - 10) @ '' more errors'' @ nl
      else ''  - '' @ fmt_v err @ nl @ PrintErrors_loop fmt_v n (i + 1) rest)"

definition PrintErrors :: "('e \<Rightarrow> string) \<Rightarrow> 'e list \<Rightarrow> string" where
  "PrintErrors fmt_v errors =
     (if length errors = 0 then []
      else nl @ ''Errors encountered:'' @ nl
        @ PrintErrors_loop fmt_v (length errors) 0 errors @ nl)"

subsection \<open>FormatNumber\<close>

text \<open>
  The loop over the characters of \<open>str\<close>, with the index \<open>i\<close> of the current character.
  Inside the loop \<open>i\<close> is below \<open>length\<close>, so the difference is positive and Go's \<^verbatim>\<open>%\<close>
  is \<open>mod\<close>.
\<close>

fun FormatNumber_loop :: "nat \<Rightarrow> nat \<Rightarrow> string \<Rightarrow> string" where
  "FormatNumber_loop len i [] = []"
| "FormatNumber_loop len i (c # cs) =
     (if i > 0 \<and> (int len - int i) mod 3 = 0 then [CHR '',''] else [])
       @ [c] @ FormatNumber_loop len (i + 1) cs"

definition FormatNumber :: "int \<Rightarrow> string" where
  "FormatNumber n =
     (if n < 1000 then fmt_d n
      else let str = fmt_d n in FormatNumber_loop (length str) 0 str)"

text \<open>The pieces of a text between occurrences of a separator, as \<^verbatim>\<open>strings.Split\<close> gives them.\<close>

fun fields_by :: "char \<Rightarrow> string \<Rightarrow> string list" where
  "fields_by sep [] = [[]]"
| "fields_by sep (c # cs) =
     (if c = sep then [] # fields_by sep cs
      else (case fields_by sep cs of [] \<Rightarrow> [[c]] | g # gs \<Rightarrow> (c # g) # gs))"

subsection \<open>Sorting the languages\<close>








subsection \<open>The four reports\<close>















text \<open>The decimal digits, to say what a formatted number consists of.\<close>

definition is_digit :: "char \<Rightarrow> bool" where
  "is_digit c = (c \<in> set ''0123456789'')"

text \<open>The number that a string of decimal digits denotes.\<close>

definition digit_value :: "char \<Rightarrow> nat" where
  "digit_value c = of_char c - 48"

definition decimal_value :: "string \<Rightarrow> nat" where
  "decimal_value s = foldl (\<lambda>a c. 10 * a + digit_value c) 0 s"

section \<open>The line-classification engine (specification sections 3 to 5)\<close>

text \<open>
  The source files of the engine (language table, line classifier, file counter, worker
  pool and aggregator) are not among the sources at hand; only the logger and the report
  printer are. Every definition of this section is therefore modelled from the
  specification, and says which part of it.
\<close>

subsection \<open>Language descriptor and classifier state\<close>

text \<open>
  Modelled from the spec: the \<^verbatim>\<open>LanguageDescriptor\<close> of section 3, whose declaration is
  missing. The two sets are lists, so that membership can be computed.
\<close>

record LanguageDescriptor =
  name :: string
  singleLineMarkers :: "string list"
  blockDelimiters :: "(string \<times> string) list"
  nestable :: bool
  stringQuotes :: "char list"
  escapeChar :: "char option"

text \<open>
  Modelled from the spec: the \<^verbatim>\<open>ClassifierState\<close> of section 3, whose declaration is
  missing, with the nesting counter that rule 4 of section 4.2 speaks of.
\<close>

record ClassifierState =
  inBlockComment :: bool
  activeDelimiterClose :: "string option"
  inString :: bool
  stringQuote :: "char option"
  nesting :: nat

text \<open>Modelled from the spec: the state at the first line of a file (section 3, lifecycle).\<close>

definition initial_state :: ClassifierState where
  "initial_state = \<lparr>inBlockComment = False, activeDelimiterClose = None, inString = False,
     stringQuote = None, nesting = 0\<rparr>"

text \<open>Modelled from the spec: the three classifications of a line (section 4.2).\<close>

datatype LineClass = Blank | Comment | Code

subsection \<open>Scanning one line\<close>

text \<open>
  Modelled from the spec: the whitespace that rule 1 of section 4.2 strips. A line is blank
  when nothing but whitespace is in it.
\<close>

definition is_space :: "char \<Rightarrow> bool" where
  "is_space c = (c \<in> set [CHR '' '', CHR 0x09, CHR 0x0A, CHR 0x0B, CHR 0x0C, CHR 0x0D])"

definition is_blank :: "string \<Rightarrow> bool" where
  "is_blank line = list_all is_space line"

text \<open>
  Modelled from the spec: ``preceded by \<^verbatim>\<open>escapeChar\<close>'' (rule 3): the character just
  before is the escape character of the language, if it has one.
\<close>

definition escaped :: "LanguageDescriptor \<Rightarrow> char option \<Rightarrow> bool" where
  "escaped d prev = (case escapeChar d of None \<Rightarrow> False | Some e \<Rightarrow> prev = Some e)"

text \<open>
  Modelled from the spec: a marker or delimiter occurs at the current position when it is
  a prefix of the rest of the line. An empty marker occurs nowhere.
\<close>

definition starts_with :: "string \<Rightarrow> string \<Rightarrow> bool" where
  "starts_with m cs = (m \<noteq> [] \<and> take (length m) cs = m)"

definition single_marker_at :: "LanguageDescriptor \<Rightarrow> string \<Rightarrow> bool" where
  "single_marker_at d cs = list_ex (\<lambda>m. starts_with m cs) (singleLineMarkers d)"

definition block_open_at :: "LanguageDescriptor \<Rightarrow> string \<Rightarrow> (string \<times> string) option" where
  "block_open_at d cs = find (\<lambda>(opn, cls). starts_with opn cs) (blockDelimiters d)"

definition nested_open_at :: "LanguageDescriptor \<Rightarrow> string \<Rightarrow> string \<Rightarrow> (string \<times> string) option" where
  "nested_open_at d active cs =
     find (\<lambda>(opn, cls). cls = active \<and> starts_with opn cs) (blockDelimiters d)"

text \<open>
  Modelled from the spec: the left-to-right scan of rules 2 to 4 of section 4.2. \<open>prev\<close> is
  the character before the current one, \<open>skip\<close> the number of characters still to pass
  over of a delimiter that has just been matched, and \<open>comment\<close> tells whether comment
  content has been met on this line. The result is the state after the line and that flag.

  Inside a block comment the active close delimiter is looked for; it ends the comment, or
  one level of nesting. A further open delimiter of the same pair counts only when the
  language nests. Inside a string only the matching quote, not preceded by the escape
  character, is looked for: comment markers are inert. Elsewhere the string state is
  checked before the comment markers (section 9), then the single-line markers, which
  make the remainder of the line comment, then the block-comment open delimiters, in the
  order of the descriptor.
\<close>

fun scan ::
  "LanguageDescriptor \<Rightarrow> ClassifierState \<Rightarrow> char option \<Rightarrow> nat \<Rightarrow> bool \<Rightarrow> string
     \<Rightarrow> ClassifierState \<times> bool" where
  "scan d st prev skip comment [] = (st, comment)"
| "scan d st prev skip comment (x # xs) =
     (if skip > 0 then scan d st (Some x) (skip - 1) comment xs
      else if inBlockComment st then
        (case activeDelimiterClose st of
           None \<Rightarrow> scan d st (Some x) 0 True xs
         | Some active \<Rightarrow>
             if starts_with active (x # xs) then
               (if nesting st \<le> 1
                then scan d (st\<lparr>inBlockComment := False, activeDelimiterClose := None,
                       nesting := 0\<rparr>) (Some x) (length active - 1) True xs
                else scan d (st\<lparr>nesting := nesting st - 1\<rparr>) (Some x) (length active - 1)
                       True xs)
             else if nestable d then
               (case nested_open_at d active (x # xs) of
                  Some (opn, cls) \<Rightarrow>
                    scan d (st\<lparr>nesting := nesting st + 1\<rparr>) (Some x) (length opn - 1) True xs
                | None \<Rightarrow> scan d st (Some x) 0 True xs)
             else scan d st (Some x) 0 True xs)
      else if inString st then
        (if stringQuote st = Some x \<and> \<not> escaped d prev
         then scan d (st\<lparr>inString := False, stringQuote := None\<rparr>) (Some x) 0 comment xs
         else scan d st (Some x) 0 comment xs)
      else if x \<in> set (stringQuotes d) \<and> \<not> escaped d prev
        then scan d (st\<lparr>inString := True, stringQuote := Some x\<rparr>) (Some x) 0 comment xs
      else if single_marker_at d (x # xs) then (st, True)
      else
        (case (if escaped d prev then None else block_open_at d (x # xs)) of
           Some (opn, cls) \<Rightarrow>
             scan d (st\<lparr>inBlockComment := True, activeDelimiterClose := Some cls, nesting := 1\<rparr>)
               (Some x) (length opn - 1) True xs
         | None \<Rightarrow> scan d st (Some x) 0 comment xs))"

text \<open>
  Modelled from the spec: the classification of one line (rules 1, 2 and 5 of section 4.2
  and the comment-dominance rule). A line of whitespace outside a block comment is Blank
  and leaves the state alone. Otherwise the line is scanned; everything read while inside
  a block comment is comment content, so a line entered inside one starts with the flag
  set. Any comment content makes the line Comment, whatever code it has; a line with
  none is Code.
\<close>

definition classify_line ::
  "LanguageDescriptor \<Rightarrow> ClassifierState \<Rightarrow> string \<Rightarrow> LineClass \<times> ClassifierState" where
  "classify_line d st line =
     (if \<not> inBlockComment st \<and> is_blank line then (Blank, st)
      else (case scan d st None 0 (inBlockComment st) line of
              (st', comment) \<Rightarrow> (if comment then Comment else Code, st')))"

text \<open>
  Modelled from the spec: the classifier over the lines of a file, carrying the state from
  line to line and giving one classification per line (contract of section 4.2).
\<close>

fun classify_lines :: "LanguageDescriptor \<Rightarrow> ClassifierState \<Rightarrow> string list \<Rightarrow> LineClass list" where
  "classify_lines d st [] = []"
| "classify_lines d st (line # rest) =
     (case classify_line d st line of (c, st') \<Rightarrow> c # classify_lines d st' rest)"

text \<open>
  Modelled from the spec: a C-like language in the sense of section 8, with \<^verbatim>\<open>//\<close> as
  single-line marker, \<^verbatim>\<open>/*\<close> and \<^verbatim>\<open>*/\<close> as block delimiters, double and single quotes and
  the backslash as escape character. The language table itself is missing.
\<close>

definition c_like :: LanguageDescriptor where
  "c_like = \<lparr>name = ''C'', singleLineMarkers = [''//''], blockDelimiters = [(''/*'', ''*/'')],
     nestable = False, stringQuotes = [CHR 0x22, CHR 0x27], escapeChar = Some (CHR 0x5C)\<rparr>"

subsection \<open>Code content without quotes or markers\<close>




subsection \<open>File counter\<close>

text \<open>
  Modelled from the spec: the \<^verbatim>\<open>FileRecord\<close> of section 3, whose declaration is missing.
  The optional error is the other summand of the counter's result.
\<close>

record FileRecord =
  path :: string
  language :: string
  codeLines :: int
  commentLines :: int
  blankLines :: int
  totalLines :: int

text \<open>
  \<^verbatim>\<open>FileError\<close> is declared in logger.go: the path and the cause. The cause is an error
  value of the operating system, of a type left open.
\<close>

record 'e FileError =
  FilePath :: string
  Err :: 'e

text \<open>
  Modelled from the spec: reading the lines of a file in order (section 4.3). Lines end at
  a line feed, a carriage return before it is dropped, a last line without line feed is
  still a line, and an empty file has no line.
\<close>

definition strip_cr :: "string \<Rightarrow> string" where
  "strip_cr line = (if line \<noteq> [] \<and> last line = CHR 0x0D then butlast line else line)"

definition read_lines :: "string \<Rightarrow> string list" where
  "read_lines content =
     (let pieces = fields_by (CHR 0x0A) content;
          pieces = (if last pieces = [] then butlast pieces else pieces)
      in map strip_cr pieces)"

text \<open>Modelled from the spec: accumulating the three counts (section 4.3).\<close>

fun add_line :: "LineClass \<Rightarrow> FileRecord \<Rightarrow> FileRecord" where
  "add_line Blank r = r\<lparr>blankLines := blankLines r + 1\<rparr>"
| "add_line Comment r = r\<lparr>commentLines := commentLines r + 1\<rparr>"
| "add_line Code r = r\<lparr>codeLines := codeLines r + 1\<rparr>"

text \<open>
  Modelled from the spec: the File Counter \<^verbatim>\<open>count(path, descriptor)\<close> of section 4.3,
  which is missing. The file system is the parameter \<open>fs\<close>: opening and reading a path
  gives its content or fails with a cause. A failure becomes a \<^verbatim>\<open>FileError\<close>. Otherwise the
  classifier is driven over all lines from the initial state, the classifications are
  tallied, and \<^verbatim>\<open>totalLines\<close> is the number of lines read.
\<close>

definition count :: "(string \<Rightarrow> 'e + string) \<Rightarrow> string \<Rightarrow> LanguageDescriptor \<Rightarrow> 'e FileError + FileRecord" where
  "count fs p d =
     (case fs p of
        Inl cause \<Rightarrow> Inl \<lparr>FilePath = p, Err = cause\<rparr>
      | Inr content \<Rightarrow>
          (let lines = read_lines content;
               classes = classify_lines d initial_state lines;
               r = fold add_line classes
                     \<lparr>path = p, language = name d, codeLines = 0, commentLines = 0,
                      blankLines = 0, totalLines = 0\<rparr>
           in Inr (r\<lparr>totalLines := int (length lines)\<rparr>)))"

subsection \<open>Aggregator\<close>

text \<open>
  Modelled from the spec: what a worker pushes downstream for one path (section 4.4): the
  record of a counted file, the error of a file that could not be read, or nothing but
  the fact that the file was skipped because no language is registered for it. The
  language table is the parameter \<open>resolve\<close>.
\<close>

datatype 'e outcome = Counted FileRecord | Failed "'e FileError" | Skipped

definition process ::
  "(string \<Rightarrow> LanguageDescriptor option) \<Rightarrow> (string \<Rightarrow> 'e + string) \<Rightarrow> string \<Rightarrow> 'e outcome" where
  "process resolve fs p =
     (case resolve p of
        None \<Rightarrow> Skipped
      | Some d \<Rightarrow> (case count fs p d of Inl e \<Rightarrow> Failed e | Inr r \<Rightarrow> Counted r))"

text \<open>
  Modelled from the spec: the aggregate statistics of sections 3, 4.5 and 6: the mapping
  from language name to \<^verbatim>\<open>LanguageStats\<close>, the grand total, and the counts of processed
  files, skipped files and encountered errors.
\<close>

record Statistics =
  perLanguage :: "string \<rightharpoonup> LanguageStats"
  grandTotal :: LanguageStats
  filesProcessed :: int
  filesSkipped :: int
  errorTally :: int

text \<open>
  Modelled from the spec: the Aggregator's state (sections 4.5 and 6), the statistics and
  the ordered list of individual errors.
\<close>

record 'e Aggregator =
  stats :: Statistics
  fileErrors :: "'e FileError list"

text \<open>
  Modelled from the spec: the statistics of a language are created on its first file with
  all sums zero; merging a record adds one file and the record's counts (sections 3
  and 4.5).
\<close>

definition zero_stats :: "string \<Rightarrow> LanguageStats" where
  "zero_stats l = \<lparr>Language = l, FileCount = 0, BlankLines = 0, CommentLines = 0,
     CodeLines = 0, TotalLines = 0\<rparr>"

definition add_record :: "FileRecord \<Rightarrow> LanguageStats \<Rightarrow> LanguageStats" where
  "add_record r s = s\<lparr>FileCount := FileCount s + 1, BlankLines := BlankLines s + blankLines r,
     CommentLines := CommentLines s + commentLines r, CodeLines := CodeLines s + codeLines r,
     TotalLines := TotalLines s + totalLines r\<rparr>"

text \<open>
  Modelled from the spec: one merge of the Aggregator (section 4.5), which is atomic. A
  record goes into its language's statistics and into the grand total; a skipped file and
  an error are counted, and the error is appended to the list.
\<close>

fun merge_stats :: "'e outcome \<Rightarrow> Statistics \<Rightarrow> Statistics" where
  "merge_stats (Counted r) t =
     t\<lparr>perLanguage := (perLanguage t)(language r \<mapsto>
          add_record r (case perLanguage t (language r) of
                          None \<Rightarrow> zero_stats (language r) | Some s \<Rightarrow> s)),
       grandTotal := add_record r (grandTotal t),
       filesProcessed := filesProcessed t + 1\<rparr>"
| "merge_stats (Failed e) t = t\<lparr>errorTally := errorTally t + 1\<rparr>"
| "merge_stats Skipped t = t\<lparr>filesSkipped := filesSkipped t + 1\<rparr>"

definition merge :: "'e outcome \<Rightarrow> 'e Aggregator \<Rightarrow> 'e Aggregator" where
  "merge out agg =
     \<lparr>stats = merge_stats out (stats agg),
      fileErrors = (case out of Failed e \<Rightarrow> fileErrors agg @ [e] | _ \<Rightarrow> fileErrors agg)\<rparr>"

definition empty_aggregator :: "'e Aggregator" where
  "empty_aggregator =
     \<lparr>stats = \<lparr>perLanguage = Map.empty, grandTotal = zero_stats ''Total'', filesProcessed = 0,
                filesSkipped = 0, errorTally = 0\<rparr>,
      fileErrors = []\<rparr>"

text \<open>
  Modelled from the spec: the invariant of section 3 on one set of counters, and a scan
  run by a single worker, which merges the outcome of each path in queue order.
\<close>

definition stats_inv :: "LanguageStats \<Rightarrow> bool" where
  "stats_inv s = (TotalLines s = BlankLines s + CommentLines s + CodeLines s)"

definition sequential_scan ::
  "(string \<Rightarrow> LanguageDescriptor option) \<Rightarrow> (string \<Rightarrow> 'e + string) \<Rightarrow> string list \<Rightarrow> 'e Aggregator" where
  "sequential_scan resolve fs paths = fold merge (map (process resolve fs) paths) empty_aggregator"

subsection \<open>Worker pool\<close>

text \<open>
  Modelled from the spec: the worker pool of sections 4.4 and 5, which is missing, as the
  interleaving of atomic steps. A state holds the paths the traversal has yet to discover,
  the shared work queue, the paths being processed by a worker, and the Aggregator. The
  traversal puts the next path at the end of the queue; a worker that is idle, there being
  fewer than \<open>n\<close> busy ones, takes the path at the head of the queue; and any busy worker
  finishes, its outcome being merged in one step. The steps may come in any order, which is
  the freedom of the scheduler.
\<close>

type_synonym 'e pool_state = "string list \<times> string list \<times> string list \<times> 'e Aggregator"

inductive pool_step ::
  "nat \<Rightarrow> (string \<Rightarrow> LanguageDescriptor option) \<Rightarrow> (string \<Rightarrow> 'e + string)
     \<Rightarrow> 'e pool_state \<Rightarrow> 'e pool_state \<Rightarrow> bool"
  for n resolve fs where
  discover: "pool_step n resolve fs (p # todo, queue, running, agg) (todo, queue @ [p], running, agg)"
| start: "length running < n \<Longrightarrow>
     pool_step n resolve fs (todo, p # queue, running, agg) (todo, queue, running @ [p], agg)"
| finish: "i < length running \<Longrightarrow>
     pool_step n resolve fs (todo, queue, running, agg)
       (todo, queue, take i running @ drop (Suc i) running,
        merge (process resolve fs (running ! i)) agg)"

text \<open>
  Modelled from the spec: a scan over the paths of a tree with \<open>n\<close> workers ends in \<open>agg\<close>
  when some sequence of steps leads from the start to quiescence, with nothing left to
  discover, an empty queue and no busy worker (sections 4.5 and 5).
\<close>

definition scan_ends ::
  "nat \<Rightarrow> (string \<Rightarrow> LanguageDescriptor option) \<Rightarrow> (string \<Rightarrow> 'e + string) \<Rightarrow> string list
     \<Rightarrow> 'e Aggregator \<Rightarrow> bool" where
  "scan_ends n resolve fs paths agg =
     rtranclp (pool_step n resolve fs) (paths, [], [], empty_aggregator) ([], [], [], agg)"

text \<open>
  A tree of three files for the examples: two C files, the second of which cannot be read,
  and a file of no registered language.
\<close>

fun fs_example :: "string \<Rightarrow> os_error + string" where
  "fs_example p =
     (if p = ''main.c''
      then Inr (''int x; // counter'' @ nl @ nl @ ''/* block'' @ nl @ ''end */'' @ nl @ ''return x;'')
      else if p = ''secret.c'' then Inl EACCES
      else if p = ''data.xyz'' then Inr (''1 2 3'' @ nl)
      else Inl ENOENT)"

fun resolve_example :: "string \<Rightarrow> LanguageDescriptor option" where
  "resolve_example p = (if p = ''main.c'' \<or> p = ''secret.c'' then Some c_like else None)"

section \<open>Properties of the logger\<close>

lemmas level_defs =
  LogLevelDebug_def LogLevelInfo_def LogLevelWarn_def LogLevelError_def LogLevelSilent_def

lemmas method_defs = Debug_def Info_def Warn_def Error_def log_Printf_def

lemma emits_iff: "emits sprintf l c \<longleftrightarrow> level l \<le> severity c"
  by (cases c) (simp_all add: emits_def method_defs Let_def)

lemma exec_warnCount:
  "warnCount (exec sprintf l c) = warnCount l + (if is_warn c \<and> emits sprintf l c then 1 else 0)"
  by (cases c) (simp_all add: emits_def method_defs Let_def)

lemma exec_errorCount:
  "errorCount (exec sprintf l c) = errorCount l + (if is_error c \<and> emits sprintf l c then 1 else 0)"
  by (cases c) (simp_all add: emits_def method_defs Let_def)

lemma run_warnCount:
  "warnCount (run sprintf l ss) = warnCount l + int (emitted is_warn sprintf l ss)"
proof (induction ss arbitrary: l)
  case Nil
  show ?case by simp
next
  case (Cons s ss)
  show ?case
  proof (cases s)
    case (Log c)
    then show ?thesis using Cons.IH [of "exec sprintf l c"] by (simp add: exec_warnCount)
  next
    case (Level lvl)
    then show ?thesis using Cons.IH [of "SetLevel l lvl"] by (simp add: SetLevel_def)
  qed
qed

lemma run_errorCount:
  "errorCount (run sprintf l ss) = errorCount l + int (emitted is_error sprintf l ss)"
proof (induction ss arbitrary: l)
  case Nil
  show ?case by simp
next
  case (Cons s ss)
  show ?case
  proof (cases s)
    case (Log c)
    then show ?thesis using Cons.IH [of "exec sprintf l c"] by (simp add: exec_errorCount)
  next
    case (Level lvl)
    then show ?thesis using Cons.IH [of "SetLevel l lvl"] by (simp add: SetLevel_def)
  qed
qed

text \<open>
  C8. A logging call emits exactly when the logger's level is at most the call's severity.
  At \<^verbatim>\<open>LogLevelSilent\<close> no call emits and the logger is left as it was. A call raises
  the warning (error) counter by one exactly when it is a \<^verbatim>\<open>Warn\<close> (\<^verbatim>\<open>Error\<close>) that
  emitted, so after any session on a fresh logger, with level changes in between,
  \<^verbatim>\<open>GetWarnCount\<close> and \<^verbatim>\<open>GetErrorCount\<close> are the numbers of emitted warnings and errors.
\<close>

theorem Logger_emits_by_level_and_counts_emissions:
  "(emits sprintf l c \<longleftrightarrow> level l \<le> severity c)
   \<and> \<not> emits sprintf (SetLevel l LogLevelSilent) c
   \<and> exec sprintf (SetLevel l LogLevelSilent) c = SetLevel l LogLevelSilent
   \<and> GetWarnCount (exec sprintf l c)
        = GetWarnCount l + (if is_warn c \<and> emits sprintf l c then 1 else 0)
   \<and> GetErrorCount (exec sprintf l c)
        = GetErrorCount l + (if is_error c \<and> emits sprintf l c then 1 else 0)
   \<and> GetWarnCount (run sprintf (NewLogger lvl) ss)
        = int (emitted is_warn sprintf (NewLogger lvl) ss)
   \<and> GetErrorCount (run sprintf (NewLogger lvl) ss)
        = int (emitted is_error sprintf (NewLogger lvl) ss)"
proof -
  have silent: "\<not> level (SetLevel l LogLevelSilent) \<le> severity c"
    by (cases c) (simp_all add: SetLevel_def level_defs)
  have quiet: "exec sprintf (SetLevel l LogLevelSilent) c = SetLevel l LogLevelSilent"
    by (cases c) (simp_all add: SetLevel_def level_defs method_defs)
  have fresh: "warnCount (NewLogger lvl) = 0" "errorCount (NewLogger lvl) = 0"
    by (simp_all add: NewLogger_def)
  show ?thesis
    using silent quiet fresh
    by (simp add: emits_iff GetWarnCount_def GetErrorCount_def exec_warnCount exec_errorCount
        run_warnCount run_errorCount)
qed



section \<open>Properties of the report printing\<close>

subsection \<open>Characters of a formatted number\<close>

lemma is_digit_digit_char: "d < 10 \<Longrightarrow> is_digit (digit_char d)"
  unfolding is_digit_def digit_char_def by (rule nth_mem) simp

lemma digits_all_digits: "c \<in> set (digits n) \<Longrightarrow> is_digit c"
proof (induction n rule: digits.induct)
  case (1 n)
  show ?case
  proof (cases "n < 10")
    case True
    with "1.prems" have "c = digit_char n" by (simp add: digits.simps [of n])
    with True show ?thesis by (simp add: is_digit_digit_char)
  next
    case False
    with "1.prems" have "c \<in> set (digits (n div 10)) \<or> c = digit_char (n mod 10)"
      by (auto simp: digits.simps [of n])
    then show ?thesis
    proof
      assume "c \<in> set (digits (n div 10))"
      with "1.IH" False show ?thesis by simp
    next
      assume "c = digit_char (n mod 10)"
      then show ?thesis by (simp add: is_digit_digit_char)
    qed
  qed
qed

lemma fmt_d_chars: "c \<in> set (fmt_d n) \<Longrightarrow> c = CHR ''-'' \<or> is_digit c"
proof (cases "n < 0")
  case True
  assume "c \<in> set (fmt_d n)"
  with True have "c = CHR ''-'' \<or> c \<in> set (digits (nat (- n)))" by (simp add: fmt_d_def)
  then show ?thesis using digits_all_digits by blast
next
  case False
  assume "c \<in> set (fmt_d n)"
  with False have "c \<in> set (digits (nat n))" by (simp add: fmt_d_def)
  then show ?thesis using digits_all_digits by blast
qed

lemma E_not_in_fmt_d: "CHR ''E'' \<notin> set (fmt_d n)"
proof
  assume "CHR ''E'' \<in> set (fmt_d n)"
  from fmt_d_chars [OF this] show False by (simp add: is_digit_def)
qed

lemma E_not_in_printFooter: "\<not> e > 0 \<Longrightarrow> CHR ''E'' \<notin> set (printFooter p s e)"
  by (simp add: printFooter_def printSeparator_def E_not_in_fmt_d)

lemma sublist_set: "sublist xs ys \<Longrightarrow> set xs \<subseteq> set ys"
  by (auto simp: sublist_def)

lemma sublist_between: "ys = ps @ xs @ ss \<Longrightarrow> sublist xs ys"
  by (auto simp: sublist_def)

subsection \<open>The list of errors\<close>

lemma PrintErrors_loop_closed:
  "i \<le> 10 \<Longrightarrow>
   PrintErrors_loop fmt_v n i rest =
     concat (map (\<lambda>e. ''  - '' @ fmt_v e @ nl) (take (10 - i) rest))
       @ (if length rest > 10 - i then ''  ... and '' @ fmt_d (int n - 10) @ '' more errors'' @ nl else [])"
proof (induction rest arbitrary: i)
  case Nil
  show ?case by simp
next
  case (Cons err rest)
  show ?case
  proof (cases "i = 10")
    case True
    then show ?thesis by simp
  next
    case False
    with Cons.prems have lt: "i < 10" by simp
    then obtain k where k: "10 - i = Suc k" "10 - Suc i = k"
      by (metis Suc_diff_Suc)
    have "Suc i \<le> 10" using lt by simp
    from Cons.IH [OF this] have IH: "PrintErrors_loop fmt_v n (Suc i) rest =
       concat (map (\<lambda>e. ''  - '' @ fmt_v e @ nl) (take k rest))
         @ (if length rest > k then ''  ... and '' @ fmt_d (int n - 10) @ '' more errors'' @ nl else [])"
      unfolding k .
    show ?thesis using lt unfolding k by (simp add: IH)
  qed
qed

text \<open>
  C3. \<^verbatim>\<open>PrintErrors\<close> prints nothing for an empty list. Otherwise it prints a heading, one
  entry per error in list order for the first ten errors, then, only when there are more
  than ten, one line giving the number of remaining errors (the length minus 10), and a
  closing blank line.
\<close>

theorem PrintErrors_capped:
  "PrintErrors fmt_v [] = []
   \<and> (errors \<noteq> [] \<longrightarrow>
        PrintErrors fmt_v errors =
          nl @ ''Errors encountered:'' @ nl
            @ concat (map (\<lambda>e. ''  - '' @ fmt_v e @ nl) (take 10 errors))
            @ (if length errors > 10
               then ''  ... and '' @ fmt_d (int (length errors) - 10) @ '' more errors'' @ nl
               else [])
            @ nl)"
proof -
  have "PrintErrors_loop fmt_v (length errors) 0 errors =
     concat (map (\<lambda>e. ''  - '' @ fmt_v e @ nl) (take 10 errors))
       @ (if length errors > 10 then ''  ... and '' @ fmt_d (int (length errors) - 10) @ '' more errors'' @ nl else [])"
    using PrintErrors_loop_closed [of 0 fmt_v "length errors" errors] by simp
  then show ?thesis by (simp add: PrintErrors_def)
qed

text \<open>Twelve errors: ten entries in order, then the line for the two that remain.\<close>

theorem PrintErrors_capped_witness:
  "PrintErrors show_arg (map ArgString [''e1'', ''e2'', ''e3'', ''e4'', ''e5'', ''e6'', ''e7'',
       ''e8'', ''e9'', ''e10'', ''e11'', ''e12''])
     = nl @ ''Errors encountered:'' @ nl
       @ ''  - e1'' @ nl @ ''  - e2'' @ nl @ ''  - e3'' @ nl @ ''  - e4'' @ nl @ ''  - e5'' @ nl
       @ ''  - e6'' @ nl @ ''  - e7'' @ nl @ ''  - e8'' @ nl @ ''  - e9'' @ nl @ ''  - e10'' @ nl
       @ ''  ... and 2 more errors'' @ nl @ nl"
  using PrintErrors_capped [of show_arg "map ArgString [''e1'', ''e2'', ''e3'', ''e4'', ''e5'',
       ''e6'', ''e7'', ''e8'', ''e9'', ''e10'', ''e11'', ''e12'']"]
  by (simp add: fmt_d_def digits.simps digit_char_def)

subsection \<open>The summary footer\<close>

text \<open>
  C2, as the code has it. The footer always prints the number of processed files and the
  number of skipped files. It prints the number of errors exactly when that number is
  positive; otherwise no error line is printed at all.
\<close>

theorem printFooter_counts:
  "sublist (''  Files processed: '' @ fmt_d p @ nl) (printFooter p s e)
   \<and> sublist (''  Files skipped:   '' @ fmt_d s @ nl) (printFooter p s e)
   \<and> (if e > 0 then sublist (''  Errors:          '' @ fmt_d e @ nl) (printFooter p s e)
       else \<not> sublist ''Errors'' (printFooter p s e))"
proof -
  have a: "sublist (''  Files processed: '' @ fmt_d p @ nl) (printFooter p s e)"
    by (rule sublist_between [where ps = "printSeparator @ nl @ ''Summary:'' @ nl"
          and ss = "''  Files skipped:   '' @ fmt_d s @ nl
            @ (if e > 0 then ''  Errors:          '' @ fmt_d e @ nl else []) @ nl"])
       (simp add: printFooter_def)
  have b: "sublist (''  Files skipped:   '' @ fmt_d s @ nl) (printFooter p s e)"
    by (rule sublist_between [where ps = "printSeparator @ nl @ ''Summary:'' @ nl
            @ ''  Files processed: '' @ fmt_d p @ nl"
          and ss = "(if e > 0 then ''  Errors:          '' @ fmt_d e @ nl else []) @ nl"])
       (simp add: printFooter_def)
  have c: "sublist (''  Errors:          '' @ fmt_d e @ nl) (printFooter p s e)" if "e > 0"
    by (rule sublist_between [where ps = "printSeparator @ nl @ ''Summary:'' @ nl
            @ ''  Files processed: '' @ fmt_d p @ nl @ ''  Files skipped:   '' @ fmt_d s @ nl"
          and ss = nl])
       (simp add: printFooter_def that)
  have d: "\<not> sublist ''Errors'' (printFooter p s e)" if "\<not> e > 0"
  proof
    assume "sublist ''Errors'' (printFooter p s e)"
    from sublist_set [OF this] have "CHR ''E'' \<in> set (printFooter p s e)" by simp
    with E_not_in_printFooter [OF that] show False by simp
  qed
  show ?thesis using a b c d by simp
qed

text \<open>
  With five processed files, three skipped files and no error, the footer has no error line
  and the count 0 occurs nowhere in it.
\<close>

theorem printFooter_zero_errors_not_printed:
  "\<not> sublist (fmt_d 0) (printFooter 5 3 0) \<and> \<not> sublist ''Errors'' (printFooter 5 3 0)"
proof -
  have z: "fmt_d 0 = ''0''" by (simp add: fmt_d_def digits.simps digit_char_def)
  have "CHR ''0'' \<notin> set (printFooter 5 3 0)"
    by (simp add: printFooter_def printSeparator_def fmt_d_def digits.simps digit_char_def)
  then have "\<not> sublist (fmt_d 0) (printFooter 5 3 0)"
    using sublist_set [of "fmt_d 0" "printFooter 5 3 0"] by (auto simp: z)
  moreover have "\<not> sublist ''Errors'' (printFooter 5 3 0)"
    using sublist_set [of "''Errors''" "printFooter 5 3 0"] E_not_in_printFooter [of 0 5 3] by auto
  ultimately show ?thesis by simp
qed

subsection \<open>Thousands separators\<close>

lemma fields_not_Nil: "fields_by sep cs \<noteq> []"
  by (induction cs) (auto split: list.splits)

lemma fields_Cons_sep: "fields_by sep (sep # cs) = [] # fields_by sep cs"
  by simp

lemma fields_Cons_other: "c \<noteq> sep \<Longrightarrow> fields_by sep (c # cs) = (c # hd (fields_by sep cs)) # tl (fields_by sep cs)"
  using fields_not_Nil [of sep cs] by (cases "fields_by sep cs") simp_all

lemma fields_no_sep: "sep \<notin> set cs \<Longrightarrow> fields_by sep cs = [cs]"
  by (induction cs) (auto split: list.splits)

lemma comma_not_digit: "\<not> is_digit CHR '',''"
  by (simp add: is_digit_def)

lemma FormatNumber_loop_filter:
  "CHR '','' \<notin> set cs \<Longrightarrow> filter (\<lambda>c. c \<noteq> CHR '','') (FormatNumber_loop len i cs) = cs"
  by (induction cs arbitrary: i) auto

lemma comma_test: "len = i + length cs \<Longrightarrow> ((int len - int i) mod 3 = 0) = (length cs mod 3 = 0)"
proof -
  assume "len = i + length cs"
  then have "int len - int i = int (length cs)" by simp
  then show ?thesis by (metis of_nat_mod of_nat_eq_0_iff of_nat_numeral)
qed

lemma FormatNumber_loop_groups:
  "len = i + length cs \<Longrightarrow> CHR '','' \<notin> set cs \<Longrightarrow> i > 0 \<Longrightarrow>
   length (hd (fields_by CHR '','' (FormatNumber_loop len i cs))) = length cs mod 3
   \<and> list_all (\<lambda>g. length g = 3) (tl (fields_by CHR '','' (FormatNumber_loop len i cs)))"
proof (induction cs arbitrary: i)
  case Nil
  show ?case by simp
next
  case (Cons c cs)
  let ?out = "FormatNumber_loop len (i + 1) cs"
  have len: "len = (i + 1) + length cs" using Cons.prems(1) by simp
  have nocomma: "CHR '','' \<notin> set cs" and c: "c \<noteq> CHR '',''" using Cons.prems(2) by auto
  from Cons.IH [OF len nocomma] have
    IH1: "length (hd (fields_by CHR '','' ?out)) = length cs mod 3" and
    IH2: "list_all (\<lambda>g. length g = 3) (tl (fields_by CHR '','' ?out))" by simp_all
  have test: "((int len - int i) mod 3 = 0) = (length (c # cs) mod 3 = 0)"
    using comma_test [OF Cons.prems(1)] .
  have fc: "fields_by CHR '','' (c # ?out) = (c # hd (fields_by CHR '','' ?out)) # tl (fields_by CHR '','' ?out)"
    using c by (rule fields_Cons_other)
  show ?case
  proof (cases "length (c # cs) mod 3 = 0")
    case True
    then have "length cs mod 3 = 2" by (simp add: mod_Suc split: if_splits) 
    have out: "FormatNumber_loop len i (c # cs) = CHR '','' # c # ?out"
      using True test Cons.prems(3) by simp
    show ?thesis
      unfolding out fields_Cons_sep fc
      using True IH1 IH2 \<open>length cs mod 3 = 2\<close> by simp
  next
    case False
    then have m: "Suc (length cs mod 3) = length (c # cs) mod 3"
      by (simp add: mod_Suc split: if_splits)
    have out: "FormatNumber_loop len i (c # cs) = c # ?out"
      using False test by simp
    show ?thesis
      unfolding out fc using IH1 IH2 m by simp
  qed
qed

lemma digits_not_Nil: "digits n \<noteq> []"
  by (subst digits.simps) simp

lemma digits_is_digit: "list_all is_digit (digits n)"
proof (induction n rule: digits.induct)
  case (1 n)
  show ?case
  proof (cases "n < 10")
    case True
    then show ?thesis by (subst digits.simps) (simp add: is_digit_digit_char)
  next
    case False
    with "1.IH" have "list_all is_digit (digits (n div 10))" by simp
    moreover have "is_digit (digit_char (n mod 10))" by (simp add: is_digit_digit_char)
    ultimately show ?thesis using False by (subst digits.simps) simp
  qed
qed

lemma digits_no_comma: "CHR '','' \<notin> set (digits n)"
  using digits_is_digit [of n] comma_not_digit by (auto simp: list_all_iff)

lemma digits_length_small: "n < 1000 \<Longrightarrow> length (digits n) \<le> 3"
proof -
  assume n: "n < 1000"
  have one: "length (digits k) = 1" if "k < 10" for k
    using that by (subst digits.simps) simp
  have two: "length (digits k) \<le> 2" if "k < 100" for k
  proof (cases "k < 10")
    case True
    then show ?thesis using one by simp
  next
    case False
    moreover have "k div 10 < 10" using that by simp
    ultimately show ?thesis using one [of "k div 10"] by (subst digits.simps) simp
  qed
  show ?thesis
  proof (cases "n < 10")
    case True
    then show ?thesis using one by simp
  next
    case False
    moreover have "n div 10 < 100" using n by simp
    ultimately show ?thesis using two [of "n div 10"] by (subst digits.simps) simp
  qed
qed

lemma fields_subset: "g \<in> set (fields_by sep cs) \<Longrightarrow> set g \<subseteq> set cs"
proof (induction cs arbitrary: g)
  case Nil
  then show ?case by simp
next
  case (Cons c cs)
  show ?case
  proof (cases "c = sep")
    case True
    with Cons.prems have "g = [] \<or> g \<in> set (fields_by sep cs)" by simp
    then show ?thesis using Cons.IH by auto
  next
    case False
    from Cons.prems have "g \<in> set ((c # hd (fields_by sep cs)) # tl (fields_by sep cs))"
      unfolding fields_Cons_other [OF False] .
    then have "g = c # hd (fields_by sep cs) \<or> g \<in> set (tl (fields_by sep cs))" by simp
    moreover have "hd (fields_by sep cs) \<in> set (fields_by sep cs)"
      using fields_not_Nil by simp
    moreover have "set (tl (fields_by sep cs)) \<subseteq> set (fields_by sep cs)"
      by (simp add: fields_not_Nil list.set_sel(2) subsetI)
    ultimately show ?thesis using Cons.IH by fastforce
  qed
qed

lemma fields_sep_free: "g \<in> set (fields_by sep cs) \<Longrightarrow> sep \<notin> set g"
proof (induction cs arbitrary: g)
  case Nil
  then show ?case by simp
next
  case (Cons c cs)
  show ?case
  proof (cases "c = sep")
    case True
    with Cons.prems have "g = [] \<or> g \<in> set (fields_by sep cs)" by simp
    then show ?thesis using Cons.IH by auto
  next
    case False
    from Cons.prems have "g \<in> set ((c # hd (fields_by sep cs)) # tl (fields_by sep cs))"
      unfolding fields_Cons_other [OF False] .
    then have "g = c # hd (fields_by sep cs) \<or> g \<in> set (tl (fields_by sep cs))" by simp
    moreover have "hd (fields_by sep cs) \<in> set (fields_by sep cs)"
      using fields_not_Nil by simp
    moreover have "set (tl (fields_by sep cs)) \<subseteq> set (fields_by sep cs)"
      by (simp add: fields_not_Nil list.set_sel(2) subsetI)
    ultimately show ?thesis using Cons.IH False by fastforce
  qed
qed

lemma FormatNumber_loop_set: "set (FormatNumber_loop len i cs) \<subseteq> insert CHR '','' (set cs)"
  by (induction cs arbitrary: i) auto

lemma digit_value_digit_char: "d < 10 \<Longrightarrow> digit_value (digit_char d) = d"
proof -
  assume "d < 10"
  then have "d = 0 \<or> d = 1 \<or> d = 2 \<or> d = 3 \<or> d = 4 \<or> d = 5 \<or> d = 6 \<or> d = 7
    \<or> d = 8 \<or> d = 9" by arith
  then consider "d = 0" | "d = 1" | "d = 2" | "d = 3" | "d = 4" | "d = 5" | "d = 6" | "d = 7"
    | "d = 8" | "d = 9" by blast
  then show ?thesis
    by cases (simp_all add: digit_value_def digit_char_def)
qed

lemma decimal_value_digits: "decimal_value (digits n) = n"
proof (induction n rule: digits.induct)
  case (1 n)
  show ?case
  proof (cases "n < 10")
    case True
    then show ?thesis
      by (subst digits.simps) (simp add: decimal_value_def digit_value_digit_char)
  next
    case False
    with "1.IH" have "decimal_value (digits (n div 10)) = n div 10" by simp
    then have "decimal_value (digits (n div 10) @ [digit_char (n mod 10)]) = 10 * (n div 10) + n mod 10"
      by (simp add: decimal_value_def digit_value_digit_char)
    then show ?thesis using False by (subst digits.simps) simp
  qed
qed

text \<open>
  C9. For a non-negative \<open>n\<close>, removing the commas from \<^verbatim>\<open>FormatNumber(n)\<close> gives back the
  decimal digits of \<open>n\<close> (a string of digits whose value is \<open>n\<close>); below 1000 the result is
  that string itself. The result does not start with a comma. Split at the commas, its
  first group has one to three digits and every later group has exactly three, so counted
  from the right every group between commas has three digits.
\<close>

theorem FormatNumber_thousands:
  "0 \<le> n \<Longrightarrow>
     filter (\<lambda>c. c \<noteq> CHR '','') (FormatNumber n) = fmt_d n
   \<and> (n < 1000 \<longrightarrow> FormatNumber n = fmt_d n)
   \<and> list_all is_digit (fmt_d n) \<and> decimal_value (fmt_d n) = nat n
   \<and> FormatNumber n \<noteq> [] \<and> hd (FormatNumber n) \<noteq> CHR '',''
   \<and> 1 \<le> length (hd (fields_by CHR '','' (FormatNumber n)))
   \<and> length (hd (fields_by CHR '','' (FormatNumber n))) \<le> 3
   \<and> list_all (\<lambda>g. length g = 3) (tl (fields_by CHR '','' (FormatNumber n)))
   \<and> list_all (list_all is_digit) (fields_by CHR '','' (FormatNumber n))"
proof -
  assume n: "0 \<le> n"
  define s where "s = digits (nat n)"
  have fmt: "fmt_d n = s" using n by (simp add: fmt_d_def s_def)
  have s_digits: "list_all is_digit s" unfolding s_def by (rule digits_is_digit)
  have s_value: "decimal_value s = nat n" unfolding s_def by (rule decimal_value_digits)
  have s_nocomma: "CHR '','' \<notin> set s" unfolding s_def by (rule digits_no_comma)
  obtain c cs where s: "s = c # cs" using digits_not_Nil [of "nat n"] by (cases s) (auto simp: s_def)
  have c: "c \<noteq> CHR '',''" and cs_nocomma: "CHR '','' \<notin> set cs" using s_nocomma s by auto
  show ?thesis
  proof (cases "n < 1000")
    case True
    then have F: "FormatNumber n = s" by (simp add: FormatNumber_def fmt)
    have "length s \<le> 3" using True n digits_length_small [of "nat n"] by (simp add: s_def)
    moreover have "fields_by CHR '','' s = [s]" using s_nocomma by (rule fields_no_sep)
    moreover have "filter (\<lambda>c. c \<noteq> CHR '','') s = s"
      using s_nocomma by (auto simp: filter_id_conv)
    moreover have "s \<noteq> []" "hd s \<noteq> CHR '',''" "1 \<le> length s"
      using s c by simp_all
    ultimately show ?thesis
      unfolding F fmt using s_digits s_value True by simp
  next
    case False
    let ?out = "FormatNumber_loop (length s) 1 cs"
    have F: "FormatNumber n = c # ?out"
      using False by (simp add: FormatNumber_def fmt Let_def s)
    have len: "length s = 1 + length cs" using s by simp
    from FormatNumber_loop_groups [OF len cs_nocomma] have
      g1: "length (hd (fields_by CHR '','' ?out)) = length cs mod 3" and
      g2: "list_all (\<lambda>g. length g = 3) (tl (fields_by CHR '','' ?out))" by simp_all
    have fc: "fields_by CHR '','' (c # ?out) = (c # hd (fields_by CHR '','' ?out)) # tl (fields_by CHR '','' ?out)"
      using c by (rule fields_Cons_other)
    have filt: "filter (\<lambda>c. c \<noteq> CHR '','') (c # ?out) = s"
      using c FormatNumber_loop_filter [OF cs_nocomma, of "length s" 1] by (simp add: s)
    have "length cs mod 3 < 3" by simp
    then have bound: "Suc (length cs mod 3) \<le> 3" by linarith
    have digs: "list_all (list_all is_digit) (fields_by CHR '','' (c # ?out))"
      unfolding list_all_iff
    proof (intro ballI)
      fix g x assume g: "g \<in> set (fields_by CHR '','' (c # ?out))" and x: "x \<in> set g"
      from fields_subset [OF g] x have "x \<in> set (c # ?out)" by blast
      then have "x \<in> set s \<or> x = CHR '',''"
        using FormatNumber_loop_set [of "length s" 1 cs] s by auto
      moreover have "x \<noteq> CHR '',''" using fields_sep_free [OF g] x by blast
      ultimately show "is_digit x" using s_digits by (auto simp: list_all_iff)
    qed
    have grp: "1 \<le> length (hd (fields_by CHR '','' (c # ?out)))"
      "length (hd (fields_by CHR '','' (c # ?out))) \<le> 3"
      "list_all (\<lambda>g. length g = 3) (tl (fields_by CHR '','' (c # ?out)))"
      unfolding fc using g1 g2 bound by simp_all
    show ?thesis
      unfolding F fmt using False filt s_digits s_value grp digs c
      by (simp del: fields_by.simps filter.simps)
  qed
qed

text \<open>The number 1234567 is printed in the groups 1, 234 and 567; 999 is printed as it is.\<close>

theorem FormatNumber_thousands_witness:
  "(0::int) \<le> 1234567
   \<and> FormatNumber 1234567 = ''1,234,567''
   \<and> fields_by CHR '','' (FormatNumber 1234567) = [''1'', ''234'', ''567'']
   \<and> filter (\<lambda>c. c \<noteq> CHR '','') (FormatNumber 1234567) = fmt_d 1234567
   \<and> FormatNumber 999 = fmt_d 999"
  using FormatNumber_thousands [of 1234567] FormatNumber_thousands [of 999]
  by (simp add: FormatNumber_def fmt_d_def digits.simps digit_char_def)

subsection \<open>Order of the languages in the reports\<close>














section \<open>Properties of the line classifier\<close>


















end
